theory Spec2Isabelle
  imports Main "HOL-Library.Word"
begin

section \<open>The proxy re-encryption command line (src/py/crypto.py)\<close>

text \<open>
  The script is glue around two external collaborators: the charm-crypto library (the
  scheme object \<open>pre = NAL16b(group_obj)\<close>, the element codec \<open>objectToBytes\<close> /
  \<open>bytesToObject\<close>) and Python's \<open>json\<close> module. Neither is code of the repository,
  so both enter the model as a record of functions that every definition takes as its
  first argument. What the script itself does (the loops over dictionaries, the choice
  of the group by field name, the UTF-8 conversions, the order of the steps of each
  subcommand and the errors raised on the way) is translated from the source.
\<close>

subsection \<open>Python values\<close>

text \<open>
  \<open>bytes\<close> is a sequence of octets. \<open>str\<close> is a sequence of Unicode code points,
  kept as natural numbers (a Python string can hold a lone surrogate, which matters for
  \<open>encode\<close>). A dictionary is its list of items in insertion order.
\<close>

type_synonym bytes = "8 word list"
type_synonym str = "nat list"

definition py_str :: "string \<Rightarrow> str" where
  "py_str s = map of_char s"

datatype error =
    ParserError string
  | AttributeError
  | UnicodeDecodeError
  | UnicodeEncodeError
  | LibraryError string

text \<open>Sequencing of steps that may raise: the first exception ends the run.\<close>

definition bind_res :: "error + 'a \<Rightarrow> ('a \<Rightarrow> error + 'b) \<Rightarrow> error + 'b" where
  "bind_res m f = (case m of Inl e \<Rightarrow> Inl e | Inr x \<Rightarrow> f x)"

text \<open>
  \<open>d[key] = value\<close>: an existing key keeps its place and takes the new value, a new key
  goes to the end.
\<close>

fun dict_set :: "('k \<times> 'v) list \<Rightarrow> 'k \<Rightarrow> 'v \<Rightarrow> ('k \<times> 'v) list" where
  "dict_set [] key v = [(key, v)]"
| "dict_set ((k, w) # d) key v =
     (if k = key then (k, v) # d else (k, w) # dict_set d key v)"

subsection \<open>UTF-8 (\<open>bytes.decode('utf-8')\<close> and \<open>str.encode('utf-8')\<close>, strict)\<close>

text \<open>
  The strict decoder accepts exactly the well-formed sequences: no overlong form, no
  surrogate (\<open>ED A0..BF\<close>), nothing above U+10FFFF, no truncated sequence.
\<close>

definition cont :: "nat \<Rightarrow> bool" where
  "cont b = (0x80 \<le> b \<and> b \<le> 0xBF)"

fun utf8_dec :: "nat list \<Rightarrow> nat list option" where
  "utf8_dec [] = Some []"
| "utf8_dec (b0 # bs) =
     (if b0 < 0x80 then map_option ((#) b0) (utf8_dec bs)
      else if 0xC2 \<le> b0 \<and> b0 \<le> 0xDF then
        (case bs of
           b1 # r \<Rightarrow>
             if cont b1
             then map_option ((#) ((b0 - 0xC0) * 64 + (b1 - 0x80))) (utf8_dec r)
             else None
         | _ \<Rightarrow> None)
      else if 0xE0 \<le> b0 \<and> b0 \<le> 0xEF then
        (case bs of
           b1 # b2 # r \<Rightarrow>
             if (if b0 = 0xE0 then 0xA0 else 0x80) \<le> b1
                \<and> b1 \<le> (if b0 = 0xED then 0x9F else 0xBF) \<and> cont b2
             then map_option
               ((#) ((b0 - 0xE0) * 4096 + (b1 - 0x80) * 64 + (b2 - 0x80))) (utf8_dec r)
             else None
         | _ \<Rightarrow> None)
      else if 0xF0 \<le> b0 \<and> b0 \<le> 0xF4 then
        (case bs of
           b1 # b2 # b3 # r \<Rightarrow>
             if (if b0 = 0xF0 then 0x90 else 0x80) \<le> b1
                \<and> b1 \<le> (if b0 = 0xF4 then 0x8F else 0xBF) \<and> cont b2 \<and> cont b3
             then map_option
               ((#) ((b0 - 0xF0) * 262144 + (b1 - 0x80) * 4096 + (b2 - 0x80) * 64
                     + (b3 - 0x80))) (utf8_dec r)
             else None
         | _ \<Rightarrow> None)
      else None)"

definition utf8_decode :: "bytes \<Rightarrow> error + str" where
  "utf8_decode b =
     (case utf8_dec (map unat b) of None \<Rightarrow> Inl UnicodeDecodeError | Some s \<Rightarrow> Inr s)"

text \<open>
  The encoder raises on a surrogate code point. A Python string holds no code point
  above U+10FFFF; the model refuses one in the same way.
\<close>

fun utf8_enc :: "nat list \<Rightarrow> nat list option" where
  "utf8_enc [] = Some []"
| "utf8_enc (c # cs) =
     (if c < 0x80 then map_option ((#) c) (utf8_enc cs)
      else if c < 0x800 then
        map_option ((@) [0xC0 + c div 64, 0x80 + c mod 64]) (utf8_enc cs)
      else if c < 0x10000 then
        (if 0xD800 \<le> c \<and> c \<le> 0xDFFF then None
         else map_option
           ((@) [0xE0 + c div 4096, 0x80 + c div 64 mod 64, 0x80 + c mod 64])
           (utf8_enc cs))
      else if c < 0x110000 then
        map_option
          ((@) [0xF0 + c div 262144, 0x80 + c div 4096 mod 64, 0x80 + c div 64 mod 64,
                0x80 + c mod 64])
          (utf8_enc cs)
      else None)"

definition utf8_encode :: "str \<Rightarrow> error + bytes" where
  "utf8_encode s =
     (case utf8_enc s of None \<Rightarrow> Inl UnicodeEncodeError | Some b \<Rightarrow> Inr (map of_nat b))"

subsection \<open>The external collaborators\<close>

text \<open>
  \<open>group_obj = PairingGroup('SS512')\<close> is the process-wide pairing group;
  \<open>IntegerGroup()\<close> is built anew at each use, with no argument.
\<close>

datatype group = PairingGroup string | IntegerGroup

definition group_obj :: group where
  "group_obj = PairingGroup ''SS512''"

text \<open>
  What \<open>json.loads\<close> can return, as far as the script tells the cases apart: a string
  (it has \<open>encode\<close>), an object (it has \<open>items\<close>), or any other value (null, a boolean,
  a number, an array), on which either attribute access raises.
\<close>

datatype json = JStr str | JObj "(str \<times> json) list" | JOther

text \<open>
  The library, as the script uses it. \<open>'e\<close> is the type of the library's elements
  (of either group, Python does not tell them apart statically), \<open>'r\<close> the randomness
  an operation draws. The spec gives fresh randomness to Setup, KeyGen and Encrypt and
  describes ReKeyGen, ReEncrypt and Decrypt as computed from their inputs.
  \<open>pre_rekeygen\<close> has the five parameters of the call
  \<open>pre.rekeygen(None, None, sk, pk, None)\<close>: params, pk_a, sk_a, pk_b, sk_b.
\<close>

record ('e, 'r) charm =
  objectToBytes :: "'e \<Rightarrow> group \<Rightarrow> error + bytes"
  bytesToObject :: "bytes \<Rightarrow> group \<Rightarrow> error + 'e"
  json_dumps :: "json \<Rightarrow> str"
  json_loads :: "str \<Rightarrow> error + json"
  pre_setup :: "'r \<Rightarrow> error + (str \<times> 'e) list"
  pre_keygen :: "'r \<Rightarrow> (str \<times> 'e) list \<Rightarrow> error + 'e \<times> 'e"
  pre_encrypt :: "'r \<Rightarrow> (str \<times> 'e) list \<Rightarrow> 'e \<Rightarrow> bytes \<Rightarrow> error + (str \<times> 'e) list"
  pre_rekeygen :: "(str \<times> 'e) list option \<Rightarrow> 'e option \<Rightarrow> 'e option \<Rightarrow> 'e option
     \<Rightarrow> 'e option \<Rightarrow> error + 'e"
  pre_re_encrypt :: "(str \<times> 'e) list \<Rightarrow> 'e \<Rightarrow> (str \<times> 'e) list \<Rightarrow> error + (str \<times> 'e) list"
  pre_decrypt :: "(str \<times> 'e) list \<Rightarrow> 'e \<Rightarrow> (str \<times> 'e) list \<Rightarrow> error + bytes"

subsection \<open>The codec functions of the script\<close>

text \<open>\<open>x.items()\<close> and \<open>x.encode('utf-8')\<close> on a value that \<open>json.loads\<close> returned.\<close>

definition items :: "json \<Rightarrow> error + (str \<times> json) list" where
  "items j = (case j of JObj d \<Rightarrow> Inr d | _ \<Rightarrow> Inl AttributeError)"

definition encode_utf8 :: "json \<Rightarrow> error + bytes" where
  "encode_utf8 j = (case j of JStr s \<Rightarrow> utf8_encode s | _ \<Rightarrow> Inl AttributeError)"

fun retrieve_params_loop ::
  "('e, 'r) charm \<Rightarrow> (str \<times> json) list \<Rightarrow> (str \<times> 'e) list \<Rightarrow> error + (str \<times> 'e) list" where
  "retrieve_params_loop L [] params = Inr params"
| "retrieve_params_loop L ((key, element) # rest) params =
     bind_res (encode_utf8 element) (\<lambda>b.
     bind_res (bytesToObject L b group_obj) (\<lambda>x.
     retrieve_params_loop L rest (dict_set params key x)))"

definition retrieve_params :: "('e, 'r) charm \<Rightarrow> str \<Rightarrow> error + (str \<times> 'e) list" where
  "retrieve_params L serialized_params_json =
     bind_res (json_loads L serialized_params_json) (\<lambda>serialized_params.
     bind_res (items serialized_params) (\<lambda>its.
     retrieve_params_loop L its []))"

fun retrieve_cipher_loop ::
  "('e, 'r) charm \<Rightarrow> (str \<times> json) list \<Rightarrow> (str \<times> 'e) list \<Rightarrow> error + (str \<times> 'e) list" where
  "retrieve_cipher_loop L [] cipher = Inr cipher"
| "retrieve_cipher_loop L ((key, element) # rest) cipher =
     (if key = py_str ''c3'' then
        bind_res (encode_utf8 element) (\<lambda>b.
        bind_res (bytesToObject L b IntegerGroup) (\<lambda>x.
        retrieve_cipher_loop L rest (dict_set cipher key x)))
      else
        bind_res (encode_utf8 element) (\<lambda>b.
        bind_res (bytesToObject L b group_obj) (\<lambda>x.
        retrieve_cipher_loop L rest (dict_set cipher key x))))"

definition retrieve_cipher :: "('e, 'r) charm \<Rightarrow> str \<Rightarrow> error + (str \<times> 'e) list" where
  "retrieve_cipher L serialized_cipher_json =
     bind_res (json_loads L serialized_cipher_json) (\<lambda>serialized_cipher.
     bind_res (items serialized_cipher) (\<lambda>its.
     retrieve_cipher_loop L its []))"

definition serialize_group_element :: "('e, 'r) charm \<Rightarrow> 'e \<Rightarrow> group \<Rightarrow> error + str" where
  "serialize_group_element L object g = bind_res (objectToBytes L object g) utf8_decode"

definition deserialize_group_element :: "('e, 'r) charm \<Rightarrow> str \<Rightarrow> group \<Rightarrow> error + 'e" where
  "deserialize_group_element L object g =
     bind_res (utf8_encode object) (\<lambda>b. bytesToObject L b g)"

fun serialize_cipher_loop ::
  "('e, 'r) charm \<Rightarrow> (str \<times> 'e) list \<Rightarrow> (str \<times> json) list \<Rightarrow> error + (str \<times> json) list" where
  "serialize_cipher_loop L [] serialized_c = Inr serialized_c"
| "serialize_cipher_loop L ((key, element) # rest) serialized_c =
     (if key = py_str ''c3'' then
        bind_res (serialize_group_element L element IntegerGroup) (\<lambda>s.
        serialize_cipher_loop L rest (dict_set serialized_c key (JStr s)))
      else
        bind_res (serialize_group_element L element group_obj) (\<lambda>s.
        serialize_cipher_loop L rest (dict_set serialized_c key (JStr s))))"

definition serialize_cipher :: "('e, 'r) charm \<Rightarrow> (str \<times> 'e) list \<Rightarrow> error + str" where
  "serialize_cipher L cipher =
     bind_res (serialize_cipher_loop L cipher []) (\<lambda>serialized_c.
     Inr (json_dumps L (JObj serialized_c)))"

subsection \<open>The subcommands\<close>

text \<open>
  The parsed command line (\<open>setup_flag\<close> is \<open>args.setup\<close>). \<open>parser.error\<close>
  prints the message and exits with status 2; it is the error \<open>ParserError\<close>. The
  result of a run is the text printed, or the exception that ended it.
\<close>

record args =
  setup_flag :: bool
  keygen :: bool
  encrypt :: bool
  decrypt :: bool
  rekeygen :: bool
  re_encrypt :: bool
  params :: "str option"
  sk :: "str option"
  pk :: "str option"
  message :: "str option"
  ciphertext :: "str option"
  rekey :: "str option"
  owned :: bool

fun serialize_params_loop ::
  "('e, 'r) charm \<Rightarrow> (str \<times> 'e) list \<Rightarrow> (str \<times> json) list \<Rightarrow> error + (str \<times> json) list" where
  "serialize_params_loop L [] serialized_params = Inr serialized_params"
| "serialize_params_loop L ((key, element) # rest) serialized_params =
     bind_res (serialize_group_element L element group_obj) (\<lambda>s.
     serialize_params_loop L rest (dict_set serialized_params key (JStr s)))"

definition run_setup :: "('e, 'r) charm \<Rightarrow> 'r \<Rightarrow> error + str" where
  "run_setup L rnd =
     bind_res (pre_setup L rnd) (\<lambda>prm.
     bind_res (serialize_params_loop L prm []) (\<lambda>serialized_params.
     Inr (json_dumps L (JObj serialized_params))))"

text \<open>
  In the keygen branch the public key and a newline are already printed when the
  serialization of the secret key is evaluated; an exception there is returned alone.
\<close>

definition run_keygen :: "('e, 'r) charm \<Rightarrow> 'r \<Rightarrow> args \<Rightarrow> error + str" where
  "run_keygen L rnd a =
     (case params a of
        None \<Rightarrow> Inl (ParserError ''--params is required'')
      | Some p \<Rightarrow>
          bind_res (retrieve_params L p) (\<lambda>prm.
          bind_res (pre_keygen L rnd prm) (\<lambda>(pkv, skv).
          bind_res (serialize_group_element L pkv group_obj) (\<lambda>s1.
          bind_res (serialize_group_element L skv group_obj) (\<lambda>s2.
          Inr (s1 @ [10] @ s2))))))"

definition run_encrypt :: "('e, 'r) charm \<Rightarrow> 'r \<Rightarrow> args \<Rightarrow> error + str" where
  "run_encrypt L rnd a =
     (case (params a, pk a, message a) of
        (Some p, Some pks, Some ms) \<Rightarrow>
          bind_res (retrieve_params L p) (\<lambda>prm.
          bind_res (deserialize_group_element L pks group_obj) (\<lambda>pkv.
          bind_res (utf8_encode ms) (\<lambda>msg.
          bind_res (pre_encrypt L rnd prm pkv msg) (\<lambda>cipher.
          serialize_cipher L cipher))))
      | _ \<Rightarrow> Inl (ParserError ''--params --pk --message are required''))"

definition run_decrypt :: "('e, 'r) charm \<Rightarrow> args \<Rightarrow> error + str" where
  "run_decrypt L a =
     (case (params a, pk a, sk a, ciphertext a) of
        (Some p, Some pks, Some sks, Some cs) \<Rightarrow>
          bind_res (retrieve_params L p) (\<lambda>prm.
          bind_res (deserialize_group_element L pks group_obj) (\<lambda>pkv.
          bind_res (deserialize_group_element L sks group_obj) (\<lambda>skv.
          bind_res (retrieve_cipher L cs) (\<lambda>cipher.
          bind_res
            (if owned a then
               bind_res (pre_rekeygen L None None (Some skv) (Some pkv) None) (\<lambda>rk.
               pre_re_encrypt L prm rk cipher)
             else Inr cipher) (\<lambda>cipher'.
          bind_res (pre_decrypt L prm skv cipher') (\<lambda>m.
          utf8_decode m))))))
      | _ \<Rightarrow> Inl (ParserError ''--params --pk --sk --ciphertext are required''))"

definition run_rekeygen :: "('e, 'r) charm \<Rightarrow> args \<Rightarrow> error + str" where
  "run_rekeygen L a =
     (case (pk a, sk a) of
        (Some pks, Some sks) \<Rightarrow>
          bind_res (deserialize_group_element L pks group_obj) (\<lambda>pk_b.
          bind_res (deserialize_group_element L sks group_obj) (\<lambda>sk_a.
          bind_res (pre_rekeygen L None None (Some sk_a) (Some pk_b) None) (\<lambda>rk.
          serialize_group_element L rk group_obj)))
      | _ \<Rightarrow> Inl (ParserError ''--pk --sk are required''))"

definition run_re_encrypt :: "('e, 'r) charm \<Rightarrow> args \<Rightarrow> error + str" where
  "run_re_encrypt L a =
     (case (params a, rekey a, ciphertext a) of
        (Some p, Some rks, Some cs) \<Rightarrow>
          bind_res (retrieve_params L p) (\<lambda>prm.
          bind_res (deserialize_group_element L rks group_obj) (\<lambda>rk.
          bind_res (retrieve_cipher L cs) (\<lambda>cipher.
          bind_res (pre_re_encrypt L prm rk cipher) (\<lambda>cipher'.
          serialize_cipher L cipher'))))
      | _ \<Rightarrow> Inl (ParserError ''--params --rekey --ciphertext are required''))"

text \<open>
  The body of the script after parsing: \<open>argc\<close> is \<open>len(sys.argv)\<close>. With no argument,
  or with no subcommand flag, nothing is printed.
\<close>

definition main :: "('e, 'r) charm \<Rightarrow> 'r \<Rightarrow> nat \<Rightarrow> args \<Rightarrow> error + str" where
  "main L rnd argc a =
     (if 1 < argc then
        if setup_flag a then run_setup L rnd
        else if keygen a then run_keygen L rnd a
        else if encrypt a then run_encrypt L rnd a
        else if decrypt a then run_decrypt L a
        else if rekeygen a then run_rekeygen L a
        else if re_encrypt a then run_re_encrypt L a
        else Inr []
      else Inr [])"

text \<open>A command line with no option given: every flag off, every value absent.\<close>

definition no_args :: args where
  "no_args = \<lparr>setup_flag = False, keygen = False, encrypt = False, decrypt = False,
     rekeygen = False, re_encrypt = False, params = None, sk = None, pk = None,
     message = None, ciphertext = None, rekey = None, owned = False\<rparr>"

subsection \<open>The codec as the spec words it\<close>

text \<open>
  The spec (4.3) routes the payload component through the residue-group encoder and
  every other component through the pairing-group encoder, by field name. The payload
  field of the scheme's ciphertext is \<open>c3\<close>. \<open>map_res\<close> applies a codec to the fields
  in order and stops at the first failure; \<open>encode_field\<close> and \<open>decode_field\<close> are
  the codec of one field under a routing of field names to providers.
\<close>

definition provider_of_field :: "str \<Rightarrow> group" where
  "provider_of_field key = (if key = py_str ''c3'' then IntegerGroup else group_obj)"

fun map_res :: "('a \<Rightarrow> error + 'b) \<Rightarrow> 'a list \<Rightarrow> error + 'b list" where
  "map_res f [] = Inr []"
| "map_res f (x # xs) =
     bind_res (f x) (\<lambda>y. bind_res (map_res f xs) (\<lambda>ys. Inr (y # ys)))"

definition encode_field ::
  "('e, 'r) charm \<Rightarrow> (str \<Rightarrow> group) \<Rightarrow> str \<times> 'e \<Rightarrow> error + str \<times> json" where
  "encode_field L route = (\<lambda>(key, element).
     bind_res (serialize_group_element L element (route key)) (\<lambda>s. Inr (key, JStr s)))"

definition decode_field ::
  "('e, 'r) charm \<Rightarrow> (str \<Rightarrow> group) \<Rightarrow> str \<times> json \<Rightarrow> error + str \<times> 'e" where
  "decode_field L route = (\<lambda>(key, element).
     bind_res (encode_utf8 element) (\<lambda>b.
     bind_res (bytesToObject L b (route key)) (\<lambda>x. Inr (key, x))))"


subsection \<open>A small concrete library\<close>

text \<open>
  Stand-ins for the collaborators, on which the theorems below are run at concrete
  inputs. They are not the NAL16b scheme and claim no security. An element is a digit;
  its encoding is a letter for the group (\<open>P\<close> or \<open>I\<close>) and the digit. The JSON
  stand-in prints and reads flat objects of strings that need no escape. The scheme
  stand-in adds modulo 10 and carries a one-digit message: the public key is the secret
  key plus the parameter \<open>g\<close>, a re-encryption key is the difference of the
  delegatee's public key and the delegator's secret key.
\<close>

definition demo_tag :: "group \<Rightarrow> 8 word" where
  "demo_tag g = (case g of PairingGroup _ \<Rightarrow> 0x50 | IntegerGroup \<Rightarrow> 0x49)"

definition demo_objectToBytes :: "nat \<Rightarrow> group \<Rightarrow> error + bytes" where
  "demo_objectToBytes x g =
     (if x < 10 then Inr [demo_tag g, 0x30 + of_nat x] else Inl (LibraryError ''serialize''))"

definition demo_bytesToObject :: "bytes \<Rightarrow> group \<Rightarrow> error + nat" where
  "demo_bytesToObject b g =
     (case b of
        [t, d] \<Rightarrow>
          if t = demo_tag g \<and> 0x30 \<le> unat d \<and> unat d \<le> 0x39 then Inr (unat d - 0x30)
          else Inl (LibraryError ''deserialize'')
      | _ \<Rightarrow> Inl (LibraryError ''deserialize''))"

definition demo_dump_value :: "json \<Rightarrow> str" where
  "demo_dump_value j = (case j of JStr s \<Rightarrow> [34] @ s @ [34] | _ \<Rightarrow> py_str ''null'')"

fun demo_dump_items :: "(str \<times> json) list \<Rightarrow> str" where
  "demo_dump_items [] = []"
| "demo_dump_items [(k, v)] = [34] @ k @ [34, 58, 32] @ demo_dump_value v"
| "demo_dump_items ((k, v) # rest) =
     [34] @ k @ [34, 58, 32] @ demo_dump_value v @ [44, 32] @ demo_dump_items rest"

definition demo_json_dumps :: "json \<Rightarrow> str" where
  "demo_json_dumps j =
     (case j of JObj d \<Rightarrow> [123] @ demo_dump_items d @ [125] | _ \<Rightarrow> demo_dump_value j)"

fun demo_read_string :: "str \<Rightarrow> (str \<times> str) option" where
  "demo_read_string [] = None"
| "demo_read_string (c # cs) =
     (if c = 34 then Some ([], cs)
      else map_option (\<lambda>(s, r). (c # s, r)) (demo_read_string cs))"

definition demo_expect :: "str \<Rightarrow> str \<Rightarrow> str option" where
  "demo_expect p t = (if take (length p) t = p then Some (drop (length p) t) else None)"

fun demo_read_items :: "nat \<Rightarrow> str \<Rightarrow> (str \<times> json) list option" where
  "demo_read_items 0 t = None"
| "demo_read_items (Suc n) t =
     (case demo_expect [34] t of
        None \<Rightarrow> None
      | Some t1 \<Rightarrow>
          (case demo_read_string t1 of
             None \<Rightarrow> None
           | Some (k, t2) \<Rightarrow>
               (case demo_expect [58, 32, 34] t2 of
                  None \<Rightarrow> None
                | Some t3 \<Rightarrow>
                    (case demo_read_string t3 of
                       None \<Rightarrow> None
                     | Some (v, t4) \<Rightarrow>
                         if t4 = [125] then Some [(k, JStr v)]
                         else (case demo_expect [44, 32] t4 of
                                 None \<Rightarrow> None
                               | Some t5 \<Rightarrow>
                                   map_option (\<lambda>d. dict_set d k (JStr v))
                                     (demo_read_items n t5))))))"

definition demo_json_loads :: "str \<Rightarrow> error + json" where
  "demo_json_loads t =
     (if t = [123, 125] then Inr (JObj [])
      else case demo_expect [123] t of
             None \<Rightarrow> Inl (LibraryError ''JSONDecodeError'')
           | Some t1 \<Rightarrow>
               (case demo_read_items (length t1) t1 of
                  None \<Rightarrow> Inl (LibraryError ''JSONDecodeError'')
                | Some d \<Rightarrow> Inr (JObj (rev d))))"

definition demo_get :: "(str \<times> nat) list \<Rightarrow> string \<Rightarrow> error + nat" where
  "demo_get d k =
     (case map_of d (py_str k) of None \<Rightarrow> Inl (LibraryError ''KeyError'') | Some v \<Rightarrow> Inr v)"

definition demo_encrypt ::
  "nat \<Rightarrow> (str \<times> nat) list \<Rightarrow> nat \<Rightarrow> bytes \<Rightarrow> error + (str \<times> nat) list" where
  "demo_encrypt r prm pkv msg =
     (case msg of
        [b] \<Rightarrow>
          if 0x30 \<le> unat b \<and> unat b \<le> 0x39
          then Inr [(py_str ''c1'', r mod 10), (py_str ''c2'', (r + pkv) mod 10),
                    (py_str ''c3'', (unat b - 0x30 + r) mod 10)]
          else Inl (LibraryError ''message'')
      | _ \<Rightarrow> Inl (LibraryError ''message''))"

definition demo_rekeygen ::
  "(str \<times> nat) list option \<Rightarrow> nat option \<Rightarrow> nat option \<Rightarrow> nat option \<Rightarrow> nat option
     \<Rightarrow> error + nat" where
  "demo_rekeygen prm pk_a sk_a pk_b sk_b =
     (case (sk_a, pk_b) of
        (Some s, Some p) \<Rightarrow> Inr ((p + 10 - s mod 10) mod 10)
      | _ \<Rightarrow> Inl (LibraryError ''TypeError''))"

definition demo_re_encrypt ::
  "(str \<times> nat) list \<Rightarrow> nat \<Rightarrow> (str \<times> nat) list \<Rightarrow> error + (str \<times> nat) list" where
  "demo_re_encrypt prm rk c =
     bind_res (demo_get c ''c2'') (\<lambda>c2. Inr (dict_set c (py_str ''c2'') ((c2 + rk) mod 10)))"

definition demo_keygen :: "nat \<Rightarrow> (str \<times> nat) list \<Rightarrow> error + nat \<times> nat" where
  "demo_keygen r prm =
     bind_res (demo_get prm ''g'') (\<lambda>g. Inr ((r + g) mod 10, r mod 10))"

definition demo_decrypt :: "(str \<times> nat) list \<Rightarrow> nat \<Rightarrow> (str \<times> nat) list \<Rightarrow> error + bytes" where
  "demo_decrypt prm skv c =
     bind_res (demo_get prm ''g'') (\<lambda>g.
     bind_res (demo_get c ''c2'') (\<lambda>c2.
     bind_res (demo_get c ''c3'') (\<lambda>c3.
     Inr [0x30 + of_nat
       ((c3 + 10 - (c2 + 30 - skv mod 10 - 2 * (g mod 10)) mod 10) mod 10)])))"

definition demo :: "(nat, nat) charm" where
  "demo = \<lparr>objectToBytes = demo_objectToBytes, bytesToObject = demo_bytesToObject,
     json_dumps = demo_json_dumps, json_loads = demo_json_loads,
     pre_setup = (\<lambda>r. Inr [(py_str ''g'', 2)]),
     pre_keygen = demo_keygen,
     pre_encrypt = demo_encrypt, pre_rekeygen = demo_rekeygen,
     pre_re_encrypt = demo_re_encrypt, pre_decrypt = demo_decrypt\<rparr>"

text \<open>The same library with a decryption that returns the single byte \<open>FF\<close>.\<close>

definition demo_garbled :: "(nat, nat) charm" where
  "demo_garbled = demo\<lparr>pre_decrypt := (\<lambda>prm skv c. Inr [0xFF])\<rparr>"

section \<open>Properties\<close>

subsection \<open>Sequencing, dictionaries and the loops of the codec\<close>

lemma bind_res_simps [simp]:
  "bind_res (Inl e) f = Inl e" "bind_res (Inr x) f = f x"
  by (simp_all add: bind_res_def)


lemma bind_res_assoc: "bind_res (bind_res m f) g = bind_res m (\<lambda>x. bind_res (f x) g)"
  by (cases m) simp_all

lemma dict_set_fresh: "key \<notin> fst ` set d \<Longrightarrow> dict_set d key v = d @ [(key, v)]"
  by (induction d key v rule: dict_set.induct) auto

lemma serialize_cipher_loop_map:
  "distinct (map fst its) \<Longrightarrow> fst ` set its \<inter> fst ` set acc = {} \<Longrightarrow>
   serialize_cipher_loop L its acc =
     bind_res (map_res (encode_field L provider_of_field) its) (\<lambda>d. Inr (acc @ d))"
proof (induction its arbitrary: acc)
  case Nil
  then show ?case by simp
next
  case (Cons kv its)
  obtain key element where kv: "kv = (key, element)" by (cases kv)
  have fresh: "key \<notin> fst ` set acc" using Cons.prems(2) by (auto simp: kv)
  have d: "distinct (map fst its)" using Cons.prems(1) by simp
  have disj: "fst ` set its \<inter> fst ` set (acc @ [(key, v)]) = {}" for v
    using Cons.prems by (auto simp: kv)
  have step: "serialize_cipher_loop L ((key, element) # its) acc =
      bind_res (serialize_group_element L element (provider_of_field key))
        (\<lambda>s. serialize_cipher_loop L its (dict_set acc key (JStr s)))"
    by (simp add: provider_of_field_def)
  show ?case unfolding kv step
    by (cases "serialize_group_element L element (provider_of_field key)")
       (simp_all add: encode_field_def dict_set_fresh[OF fresh]
          Cons.IH[OF d disj] bind_res_assoc)
qed


lemma retrieve_cipher_loop_map:
  "distinct (map fst its) \<Longrightarrow> fst ` set its \<inter> fst ` set acc = {} \<Longrightarrow>
   retrieve_cipher_loop L its acc =
     bind_res (map_res (decode_field L provider_of_field) its) (\<lambda>d. Inr (acc @ d))"
proof (induction its arbitrary: acc)
  case Nil
  then show ?case by simp
next
  case (Cons kv its)
  obtain key element where kv: "kv = (key, element)" by (cases kv)
  have fresh: "key \<notin> fst ` set acc" using Cons.prems(2) by (auto simp: kv)
  have d: "distinct (map fst its)" using Cons.prems(1) by simp
  have disj: "fst ` set its \<inter> fst ` set (acc @ [(key, v)]) = {}" for v
    using Cons.prems by (auto simp: kv)
  have step: "retrieve_cipher_loop L ((key, element) # its) acc =
      bind_res (encode_utf8 element) (\<lambda>b.
      bind_res (bytesToObject L b (provider_of_field key)) (\<lambda>x.
      retrieve_cipher_loop L its (dict_set acc key x)))"
    by (simp add: provider_of_field_def)
  show ?case
  proof (cases "encode_utf8 element")
    case (Inl e)
    then show ?thesis unfolding kv step by (simp add: decode_field_def)
  next
    case (Inr b)
    then show ?thesis unfolding kv step
      by (cases "bytesToObject L b (provider_of_field key)")
         (simp_all add: decode_field_def dict_set_fresh[OF fresh]
            Cons.IH[OF d disj] bind_res_assoc)
  qed
qed






subsection \<open>UTF-8: decoding and encoding are inverse\<close>

lemma dm2: fixes x y :: nat assumes "y < 64"
  shows "(x * 64 + y) div 64 = x" "(x * 64 + y) mod 64 = y"
  using assms by simp_all

lemma dm3: fixes x y z :: nat assumes "y < 64" "z < 64"
  shows "(x * 4096 + y * 64 + z) div 4096 = x" "(x * 4096 + y * 64 + z) div 64 mod 64 = y" "(x * 4096 + y * 64 + z) mod 64 = z"
proof -
  have e: "x * 4096 + y * 64 + z = (x * 64 + y) * 64 + z" by simp
  have d: "(x * 4096 + y * 64 + z) div 64 = x * 64 + y" unfolding e using assms by simp
  show "(x * 4096 + y * 64 + z) div 64 mod 64 = y" unfolding d using assms by simp
  have "((x * 64 + y) * 64 + z) mod 64 = z" using assms(2) by (simp only: mod_mult_self3 mod_less)
  then show "(x * 4096 + y * 64 + z) mod 64 = z" by (simp only: e)
  have "(x * 4096 + y * 64 + z) div 4096 = (x * 4096 + y * 64 + z) div 64 div 64"
    by (simp add: div_mult2_eq[symmetric])
  then show "(x * 4096 + y * 64 + z) div 4096 = x" unfolding d using assms by simp
qed

lemma dm4: fixes x y z w :: nat assumes "y < 64" "z < 64" "w < 64"
  shows "(x * 262144 + y * 4096 + z * 64 + w) div 262144 = x"
    "(x * 262144 + y * 4096 + z * 64 + w) div 4096 mod 64 = y"
    "(x * 262144 + y * 4096 + z * 64 + w) div 64 mod 64 = z"
    "(x * 262144 + y * 4096 + z * 64 + w) mod 64 = w"
proof -
  have e: "x * 262144 + y * 4096 + z * 64 + w = (x * 64 + y) * 4096 + z * 64 + w" by simp
  show "(x * 262144 + y * 4096 + z * 64 + w) div 4096 mod 64 = y"
    unfolding e dm3(1)[OF assms(2,3)] using assms by simp
  show "(x * 262144 + y * 4096 + z * 64 + w) div 64 mod 64 = z"
    unfolding e by (rule dm3(2)[OF assms(2,3)])
  show "(x * 262144 + y * 4096 + z * 64 + w) mod 64 = w"
    unfolding e by (rule dm3(3)[OF assms(2,3)])
  have "(x * 262144 + y * 4096 + z * 64 + w) div 262144 = (x * 262144 + y * 4096 + z * 64 + w) div 4096 div 64"
    by (simp add: div_mult2_eq[symmetric])
  then show "(x * 262144 + y * 4096 + z * 64 + w) div 262144 = x"
    unfolding e dm3(1)[OF assms(2,3)] using assms by simp
qed


lemma enc2: "128 \<le> c \<Longrightarrow> c < 2048 \<Longrightarrow> utf8_enc (c # cs) = map_option ((@) [0xC0 + c div 64, 0x80 + c mod 64]) (utf8_enc cs)"
  by simp

lemma enc3: "2048 \<le> c \<Longrightarrow> c < 65536 \<Longrightarrow> \<not> (0xD800 \<le> c \<and> c \<le> 0xDFFF) \<Longrightarrow> utf8_enc (c # cs) = map_option
           ((@) [0xE0 + c div 4096, 0x80 + c div 64 mod 64, 0x80 + c mod 64])
           (utf8_enc cs)"
  by auto

lemma enc4: "65536 \<le> c \<Longrightarrow> c < 0x110000 \<Longrightarrow> utf8_enc (c # cs) = map_option
          ((@) [0xF0 + c div 262144, 0x80 + c div 4096 mod 64, 0x80 + c div 64 mod 64,
                0x80 + c mod 64])
          (utf8_enc cs)"
  by simp

lemma utf8_dec_enc: "utf8_dec bs = Some s \<Longrightarrow> utf8_enc s = Some bs"
proof (induction bs arbitrary: s rule: utf8_dec.induct)
  case 1
  then show ?case by simp
next
  case (2 b0 bs)
  show ?case
  proof (cases "b0 < 0x80")
    case True
    with "2.prems" "2.IH"(1) show ?thesis by (auto split: if_splits)
  next
    case f1: False
    show ?thesis
    proof (cases "0xC2 \<le> b0 \<and> b0 \<le> 0xDF")
      case True
      with f1 "2.prems" obtain b1 r s' where bs: "bs = b1 # r" and c: "cont b1"
        and r: "utf8_dec r = Some s'" and s: "s = ((b0 - 0xC0) * 64 + (b1 - 0x80)) # s'"
        by (auto split: list.splits if_splits)
      from "2.IH"(2)[OF f1 True bs c r] have ih: "utf8_enc s' = Some r" .
      define x where "x = b0 - 0xC0"
      define y where "y = b1 - 0x80"
      have y: "y < 64" and x: "2 \<le> x" "x < 32" and b: "0xC0 + x = b0" "0x80 + y = b1"
        using True c by (auto simp: x_def y_def cont_def)
      have "128 \<le> x * 64 + y" "x * 64 + y < 2048" using x y by auto
      then have "utf8_enc ((x * 64 + y) # s') = Some (b0 # b1 # r)"
        by (simp only: enc2 ih option.map append.simps dm2[OF y] b)
      then show ?thesis unfolding s bs x_def y_def .
    next
      case f2: False
      show ?thesis
      proof (cases "0xE0 \<le> b0 \<and> b0 \<le> 0xEF")
        case True
        with f1 f2 "2.prems" obtain b1 b2 r s' where bs: "bs = b1 # b2 # r"
          and c: "(if b0 = 0xE0 then 0xA0 else 0x80) \<le> b1
                \<and> b1 \<le> (if b0 = 0xED then 0x9F else 0xBF) \<and> cont b2"
          and r: "utf8_dec r = Some s'"
          and s: "s = ((b0 - 0xE0) * 4096 + (b1 - 0x80) * 64 + (b2 - 0x80)) # s'"
          by (auto split: list.splits if_splits)
        from "2.IH"(3)[OF f1 f2 True bs refl c r] have ih: "utf8_enc s' = Some r" .
        define x where "x = b0 - 0xE0"
        define y where "y = b1 - 0x80"
        define z where "z = b2 - 0x80"
        have y: "y < 64" and z: "z < 64" and x: "x < 16"
          and lo: "x = 0 \<Longrightarrow> 32 \<le> y" and sur: "x = 13 \<Longrightarrow> y < 32"
          and b: "0xE0 + x = b0" "0x80 + y = b1" "0x80 + z = b2"
          using True c by (auto simp: x_def y_def z_def cont_def split: if_splits)
        have h1: "2048 \<le> x * 4096 + y * 64 + z" using lo by (cases "x = 0") auto
        have h2: "x * 4096 + y * 64 + z < 65536" using x y z by auto
        have h3: "\<not> (0xD800 \<le> x * 4096 + y * 64 + z \<and> x * 4096 + y * 64 + z \<le> 0xDFFF)"
        proof (cases "x = 13")
          case True
          with sur z show ?thesis by auto
        next
          case False
          then consider "x \<le> 12" | "14 \<le> x" by linarith
          then show ?thesis using y z by cases auto
        qed
        have "utf8_enc ((x * 4096 + y * 64 + z) # s') = Some (b0 # b1 # b2 # r)"
          by (simp only: enc3[OF h1 h2 h3] ih option.map append.simps dm3[OF y z] b)
        then show ?thesis unfolding s bs x_def y_def z_def .
      next
        case f3: False
        show ?thesis
        proof (cases "0xF0 \<le> b0 \<and> b0 \<le> 0xF4")
          case True
          with f1 f2 f3 "2.prems" obtain b1 b2 b3 r s' where bs: "bs = b1 # b2 # b3 # r"
            and c: "(if b0 = 0xF0 then 0x90 else 0x80) \<le> b1
                \<and> b1 \<le> (if b0 = 0xF4 then 0x8F else 0xBF) \<and> cont b2 \<and> cont b3"
            and r: "utf8_dec r = Some s'"
            and s: "s = ((b0 - 0xF0) * 262144 + (b1 - 0x80) * 4096 + (b2 - 0x80) * 64
                     + (b3 - 0x80)) # s'"
            by (auto split: list.splits if_splits)
          from "2.IH"(4)[OF f1 f2 f3 True bs refl refl c r] have ih: "utf8_enc s' = Some r" .
          define x where "x = b0 - 0xF0"
          define y where "y = b1 - 0x80"
          define z where "z = b2 - 0x80"
          define w where "w = b3 - 0x80"
          have y: "y < 64" and z: "z < 64" and w: "w < 64" and x: "x \<le> 4"
            and lo: "x = 0 \<Longrightarrow> 16 \<le> y" and hi: "x = 4 \<Longrightarrow> y < 16"
            and b: "0xF0 + x = b0" "0x80 + y = b1" "0x80 + z = b2" "0x80 + w = b3"
            using True c by (auto simp: x_def y_def z_def w_def cont_def split: if_splits)
          have "65536 \<le> x * 262144 + y * 4096 + z * 64 + w" using lo by (cases "x = 0") auto
          moreover have "x * 262144 + y * 4096 + z * 64 + w < 0x110000"
          proof (cases "x = 4")
            case True
            with hi z w show ?thesis by auto
          next
            case False
            with x have "x \<le> 3" by simp
            then show ?thesis using y z w by auto
          qed
          ultimately have "utf8_enc ((x * 262144 + y * 4096 + z * 64 + w) # s')
              = Some (b0 # b1 # b2 # b3 # r)"
            by (simp only: enc4 ih option.map append.simps dm4[OF y z w] b)
          then show ?thesis unfolding s bs x_def y_def z_def w_def .
        next
          case False
          with f1 f2 f3 "2.prems" show ?thesis by (simp split: if_splits)
        qed
      qed
    qed
  qed
qed

lemma utf8_decode_encode: "utf8_decode b = Inr s \<Longrightarrow> utf8_encode s = Inr b"
  by (auto simp: utf8_decode_def utf8_encode_def map_idI dest!: utf8_dec_enc split: option.splits)



lemma split3: fixes c :: nat
  shows "c = (c div 4096) * 4096 + (c div 64 mod 64) * 64 + c mod 64"
proof -
  have "c div 4096 = c div 64 div 64" by (simp add: div_mult2_eq[symmetric])
  moreover have "c div 64 = (c div 64 div 64) * 64 + c div 64 mod 64" by simp
  moreover have "c = (c div 64) * 64 + c mod 64" by simp
  ultimately show ?thesis by linarith
qed

lemma split4: fixes c :: nat
  shows "c = (c div 262144) * 262144 + (c div 4096 mod 64) * 4096 + (c div 64 mod 64) * 64 + c mod 64"
proof -
  have "c div 262144 = c div 4096 div 64" by (simp add: div_mult2_eq[symmetric])
  moreover have "c div 4096 = (c div 4096 div 64) * 64 + c div 4096 mod 64" by simp
  moreover note split3[of c]
  ultimately show ?thesis by linarith
qed

lemma dec2: assumes "0x80 \<le> c" "c < 0x800"
  shows "utf8_dec ((0xC0 + c div 64) # (0x80 + c mod 64) # r) = map_option ((#) c) (utf8_dec r)"
proof -
  define q where "q = c div 64"
  define m where "m = c mod 64"
  have c: "c = q * 64 + m" by (simp add: q_def m_def)
  have m: "m < 64" by (simp add: m_def)
  have q: "2 \<le> q" "q < 32" using assms by (auto simp: q_def)
  have "utf8_dec ((0xC0 + q) # (0x80 + m) # r) = map_option ((#) (q * 64 + m)) (utf8_dec r)"
    using q m by (simp add: cont_def)
  then have "utf8_dec ((0xC0 + q) # (0x80 + m) # r) = map_option ((#) c) (utf8_dec r)"
    by (simp only: c[symmetric])
  then show ?thesis unfolding q_def m_def .
qed

lemma dec3: assumes "0x800 \<le> c" "c < 0x10000" "\<not> (0xD800 \<le> c \<and> c \<le> 0xDFFF)"
  shows "utf8_dec ((0xE0 + c div 4096) # (0x80 + c div 64 mod 64) # (0x80 + c mod 64) # r)
     = map_option ((#) c) (utf8_dec r)"
proof -
  define q where "q = c div 4096"
  define m1 where "m1 = c div 64 mod 64"
  define m2 where "m2 = c mod 64"
  have c: "c = q * 4096 + m1 * 64 + m2" unfolding q_def m1_def m2_def by (rule split3)
  have m: "m1 < 64" "m2 < 64" by (simp_all add: m1_def m2_def)
  have q: "q < 16" using assms by (auto simp: q_def)
  have lo: "q = 0 \<Longrightarrow> 32 \<le> m1" using assms(1) m unfolding c by auto
  have hi: "q = 13 \<Longrightarrow> m1 < 32" using assms(3) m unfolding c by auto
  have "utf8_dec ((0xE0 + q) # (0x80 + m1) # (0x80 + m2) # r)
      = map_option ((#) (q * 4096 + m1 * 64 + m2)) (utf8_dec r)"
    using q m lo hi by (auto simp: cont_def)
  then have "utf8_dec ((0xE0 + q) # (0x80 + m1) # (0x80 + m2) # r)
      = map_option ((#) c) (utf8_dec r)"
    by (simp only: c[symmetric])
  then show ?thesis unfolding q_def m1_def m2_def .
qed

lemma dec4: assumes "0x10000 \<le> c" "c < 0x110000"
  shows "utf8_dec ((0xF0 + c div 262144) # (0x80 + c div 4096 mod 64) # (0x80 + c div 64 mod 64)
        # (0x80 + c mod 64) # r)
     = map_option ((#) c) (utf8_dec r)"
proof -
  define q where "q = c div 262144"
  define m1 where "m1 = c div 4096 mod 64"
  define m2 where "m2 = c div 64 mod 64"
  define m3 where "m3 = c mod 64"
  have c: "c = q * 262144 + m1 * 4096 + m2 * 64 + m3" unfolding q_def m1_def m2_def m3_def by (rule split4)
  have m: "m1 < 64" "m2 < 64" "m3 < 64" by (simp_all add: m1_def m2_def m3_def)
  have q: "q \<le> 4" using assms by (auto simp: q_def)
  have lo: "q = 0 \<Longrightarrow> 16 \<le> m1" using assms(1) m unfolding c by auto
  have hi: "q = 4 \<Longrightarrow> m1 < 16" using assms(2) m unfolding c by auto
  have "utf8_dec ((0xF0 + q) # (0x80 + m1) # (0x80 + m2) # (0x80 + m3) # r)
      = map_option ((#) (q * 262144 + m1 * 4096 + m2 * 64 + m3)) (utf8_dec r)"
    using q m lo hi by (auto simp: cont_def)
  then have "utf8_dec ((0xF0 + q) # (0x80 + m1) # (0x80 + m2) # (0x80 + m3) # r)
      = map_option ((#) c) (utf8_dec r)"
    by (simp only: c[symmetric])
  then show ?thesis unfolding q_def m1_def m2_def m3_def .
qed

lemma utf8_enc_dec: "utf8_enc s = Some bs \<Longrightarrow> utf8_dec bs = Some s"
proof (induction s arbitrary: bs)
  case Nil
  then show ?case by simp
next
  case (Cons c cs)
  from Cons.prems obtain r where r: "utf8_enc cs = Some r"
    by (cases "utf8_enc cs") (auto split: if_splits)
  from Cons.IH[OF r] have ih: "utf8_dec r = Some cs" .
  consider "c < 0x80" | "0x80 \<le> c" "c < 0x800" 
    | "0x800 \<le> c" "c < 0x10000" "\<not> (0xD800 \<le> c \<and> c \<le> 0xDFFF)"
    | "0x10000 \<le> c" "c < 0x110000"
    | "0xD800 \<le> c \<and> c \<le> 0xDFFF" | "0x110000 \<le> c" by linarith
  then show ?case
  proof cases
    case 1
    with Cons.prems r ih show ?thesis by auto
  next
    case 2
    with Cons.prems r have "bs = (0xC0 + c div 64) # (0x80 + c mod 64) # r" by auto
    then show ?thesis using dec2[OF 2] ih by simp
  next
    case 3
    with Cons.prems r have "bs = (0xE0 + c div 4096) # (0x80 + c div 64 mod 64) # (0x80 + c mod 64) # r" by auto
    then show ?thesis using dec3[OF 3] ih by simp
  next
    case 4
    with Cons.prems r have "bs = (0xF0 + c div 262144) # (0x80 + c div 4096 mod 64) # (0x80 + c div 64 mod 64)
        # (0x80 + c mod 64) # r" by auto
    then show ?thesis using dec4[OF 4] ih by simp
  next
    case 5
    with Cons.prems show ?thesis by auto
  next
    case 6
    with Cons.prems show ?thesis by auto
  qed
qed

lemma utf8_enc_bytes: "utf8_enc s = Some bs \<Longrightarrow> \<forall>b\<in>set bs. b < 256"
proof (induction s arbitrary: bs)
  case Nil
  then show ?case by simp
next
  case (Cons c cs)
  from Cons.prems obtain r where r: "utf8_enc cs = Some r"
    by (cases "utf8_enc cs") (auto split: if_splits)
  from Cons.IH[OF r] have ih: "\<forall>b\<in>set r. b < 256" .
  have "c div 64 mod 64 < 64" "c mod 64 < 64" "c div 4096 mod 64 < 64" by simp_all
  moreover have "c < 0x800 \<Longrightarrow> c div 64 < 32" "c < 0x10000 \<Longrightarrow> c div 4096 < 16"
     "c < 0x110000 \<Longrightarrow> c div 262144 < 16" by auto
  ultimately show ?case using Cons.prems r ih by (auto split: if_splits)
qed

lemma utf8_encode_decode: "utf8_encode s = Inr b \<Longrightarrow> utf8_decode b = Inr s"
proof -
  assume "utf8_encode s = Inr b"
  then obtain nb where nb: "utf8_enc s = Some nb" and b: "b = map of_nat nb"
    by (auto simp: utf8_encode_def split: option.splits)
  from utf8_enc_bytes[OF nb] have "map unat b = nb" unfolding b
    by (auto intro!: map_idI simp: unat_of_nat)
  with utf8_enc_dec[OF nb] show ?thesis by (simp add: utf8_decode_def)
qed


subsection \<open>The codec of the script, field by field\<close>

lemma bind_res_Inr_id [simp]: "bind_res m Inr = m"
  by (cases m) simp_all




lemma serialize_cipher_fields:
  "distinct (map fst cipher) \<Longrightarrow>
   serialize_cipher L cipher =
     bind_res (map_res (encode_field L provider_of_field) cipher)
       (\<lambda>d. Inr (json_dumps L (JObj d)))"
  by (simp add: serialize_cipher_def serialize_cipher_loop_map bind_res_assoc)

lemma retrieve_cipher_fields:
  "json_loads L text = Inr (JObj its) \<Longrightarrow> distinct (map fst its) \<Longrightarrow>
   retrieve_cipher L text = map_res (decode_field L provider_of_field) its"
  by (simp add: retrieve_cipher_def items_def retrieve_cipher_loop_map)




lemma run_decrypt_steps:
  assumes "retrieve_params L p = Inr prm"
    and "deserialize_group_element L pks group_obj = Inr pkv"
    and "deserialize_group_element L sks group_obj = Inr skv"
    and "retrieve_cipher L cs = Inr c"
  shows "main L rnd argc (no_args\<lparr>decrypt := True, params := Some p, pk := Some pks,
           sk := Some sks, ciphertext := Some cs, owned := own\<rparr>) =
         (if 1 < argc then
            bind_res
              (if own then
                 bind_res (pre_rekeygen L None None (Some skv) (Some pkv) None) (\<lambda>rk.
                 pre_re_encrypt L prm rk c)
               else Inr c) (\<lambda>c1.
            bind_res (pre_decrypt L prm skv c1) utf8_decode)
          else Inr [])"
  using assms by (simp add: main_def no_args_def run_decrypt_def)

section \<open>The claims\<close>

text \<open>
  The theorems hold for every library \<open>L\<close>: they say what the script does with
  whatever the collaborators return. Each is then run on the concrete library
  \<open>demo\<close>. Nothing is stated about what \<open>pre.encrypt\<close>, \<open>pre.re_encrypt\<close> or
  \<open>pre.decrypt\<close> compute: that is charm's code, not the script's.
\<close>

subsection \<open>Provider routing (C6)\<close>

text \<open>
  C6. Codec provider routing by field name. On a ciphertext (a dictionary, so its keys
  are distinct) \<open>serialize_cipher\<close> is the field-by-field encoding in which each field
  goes through the provider its name selects, and \<open>retrieve_cipher\<close> is the
  field-by-field decoding under the same selection; the provider selected is the
  residue group exactly for the name \<open>c3\<close> and the pairing group \<open>SS512\<close> for every
  other name. The provider is a function of the name alone, whatever the position of
  the field.
\<close>

theorem cipher_codec_routing:
  "(distinct (map fst cipher) \<longrightarrow>
      serialize_cipher L cipher =
        bind_res (map_res (encode_field L provider_of_field) cipher)
          (\<lambda>d. Inr (json_dumps L (JObj d))))
   \<and> (json_loads L text = Inr (JObj its) \<and> distinct (map fst its) \<longrightarrow>
      retrieve_cipher L text = map_res (decode_field L provider_of_field) its)
   \<and> (provider_of_field key = IntegerGroup \<longleftrightarrow> key = py_str ''c3'')
   \<and> (key \<noteq> py_str ''c3'' \<longrightarrow> provider_of_field key = PairingGroup ''SS512'')"
  by (simp add: serialize_cipher_fields retrieve_cipher_fields provider_of_field_def
      group_obj_def)

theorem cipher_codec_routing_witness:
  "serialize_cipher demo [(py_str ''c3'', 9), (py_str ''c1'', 4)]
     = Inr [123, 34, 99, 51, 34, 58, 32, 34, 73, 57, 34, 44, 32,
            34, 99, 49, 34, 58, 32, 34, 80, 52, 34, 125]
   \<and> retrieve_cipher demo [123, 34, 99, 51, 34, 58, 32, 34, 73, 57, 34, 44, 32,
            34, 99, 49, 34, 58, 32, 34, 80, 52, 34, 125]
     = Inr [(py_str ''c3'', 9), (py_str ''c1'', 4)]
   \<and> provider_of_field (py_str ''c3'') = IntegerGroup
   \<and> provider_of_field (py_str ''c1'') = PairingGroup ''SS512''"
proof -
  let ?c = "[(py_str ''c3'', 9), (py_str ''c1'', 4)] :: (str \<times> nat) list"
  let ?t = "[123, 34, 99, 51, 34, 58, 32, 34, 73, 57, 34, 44, 32,
            34, 99, 49, 34, 58, 32, 34, 80, 52, 34, 125] :: str"
  let ?its = "[(py_str ''c3'', JStr (py_str ''I9'')), (py_str ''c1'', JStr (py_str ''P4''))]"
  note T = cipher_codec_routing[of ?c demo ?t ?its "py_str ''c3''"]
  note U = cipher_codec_routing[of ?c demo ?t ?its "py_str ''c1''"]
  have d1: "distinct (map fst ?c)" by code_simp
  have d2: "distinct (map fst ?its)" by code_simp
  have l: "json_loads demo ?t = Inr (JObj ?its)" by code_simp
  have e1: "bind_res (map_res (encode_field demo provider_of_field) ?c)
          (\<lambda>d. Inr (json_dumps demo (JObj d))) = Inr ?t" by code_simp
  have e2: "map_res (decode_field demo provider_of_field) ?its = Inr ?c" by code_simp
  have n: "py_str ''c1'' \<noteq> py_str ''c3''" by code_simp
  from T d1 e1 have "serialize_cipher demo ?c = Inr ?t" by simp
  moreover from T l d2 e2 have "retrieve_cipher demo ?t = Inr ?c" by simp
  moreover from T have "provider_of_field (py_str ''c3'') = IntegerGroup" by simp
  moreover from U n have "provider_of_field (py_str ''c1'') = PairingGroup ''SS512''" by simp
  ultimately show ?thesis by simp
qed

subsection \<open>Serialization round trip (C7)\<close>




subsection \<open>The owned flag (C9)\<close>



subsection \<open>The printed message (C10)\<close>

text \<open>
  C10. The decrypt command decodes the recovered bytes as UTF-8 before printing. When
  every step up to \<open>pre.decrypt\<close> succeeds and returns the bytes \<open>m\<close>: if \<open>m\<close> is not
  the UTF-8 encoding of any text, the command ends with \<open>UnicodeDecodeError\<close> and
  prints nothing; if \<open>m\<close> is the encoding of the text \<open>t\<close>, the command prints \<open>t\<close>.
\<close>

theorem decrypt_output_utf8_decoded:
  assumes argc: "1 < argc"
    and prm: "retrieve_params L p = Inr prm"
    and pkv: "deserialize_group_element L pks group_obj = Inr pkv"
    and skv: "deserialize_group_element L sks group_obj = Inr skv"
    and c: "retrieve_cipher L cs = Inr c"
    and c1: "(if own then
                bind_res (pre_rekeygen L None None (Some skv) (Some pkv) None) (\<lambda>rk.
                pre_re_encrypt L prm rk c)
              else Inr c) = Inr c1"
    and m: "pre_decrypt L prm skv c1 = Inr m"
  shows "((\<forall>t. utf8_encode t \<noteq> Inr m) \<longrightarrow>
            main L rnd argc (no_args\<lparr>decrypt := True, params := Some p, pk := Some pks,
              sk := Some sks, ciphertext := Some cs, owned := own\<rparr>)
            = Inl UnicodeDecodeError)
       \<and> (\<forall>t. utf8_encode t = Inr m \<longrightarrow>
            main L rnd argc (no_args\<lparr>decrypt := True, params := Some p, pk := Some pks,
              sk := Some sks, ciphertext := Some cs, owned := own\<rparr>)
            = Inr t)"
proof -
  have run: "main L rnd argc (no_args\<lparr>decrypt := True, params := Some p, pk := Some pks,
              sk := Some sks, ciphertext := Some cs, owned := own\<rparr>) = utf8_decode m"
    unfolding run_decrypt_steps[OF prm pkv skv c] c1 using argc m by simp
  have bad: "utf8_decode m = Inl UnicodeDecodeError" if "\<forall>t. utf8_encode t \<noteq> Inr m"
  proof (cases "utf8_decode m")
    case (Inl e)
    then show ?thesis by (auto simp: utf8_decode_def split: option.splits)
  next
    case (Inr t)
    from utf8_decode_encode[OF this] that show ?thesis by simp
  qed
  show ?thesis unfolding run using bad utf8_encode_decode by blast
qed

theorem decrypt_output_utf8_decoded_witness:
  "main demo_garbled 0 2 (no_args\<lparr>decrypt := True,
       params := Some [123, 34, 103, 34, 58, 32, 34, 80, 50, 34, 125],
       pk := Some (py_str ''P5''), sk := Some (py_str ''P3''),
       ciphertext := Some [123, 34, 99, 49, 34, 58, 32, 34, 80, 52, 34, 44, 32, 34, 99,
         50, 34, 58, 32, 34, 80, 49, 34, 44, 32, 34, 99, 51, 34, 58, 32, 34, 73, 57, 34,
         125],
       owned := False\<rparr>) = Inl UnicodeDecodeError
   \<and> main demo 0 2 (no_args\<lparr>decrypt := True,
       params := Some [123, 34, 103, 34, 58, 32, 34, 80, 50, 34, 125],
       pk := Some (py_str ''P5''), sk := Some (py_str ''P3''),
       ciphertext := Some [123, 34, 99, 49, 34, 58, 32, 34, 80, 52, 34, 44, 32, 34, 99,
         50, 34, 58, 32, 34, 80, 57, 34, 44, 32, 34, 99, 51, 34, 58, 32, 34, 73, 57, 34,
         125],
       owned := True\<rparr>) = Inr (py_str ''5'')"
proof -
  let ?p = "[123, 34, 103, 34, 58, 32, 34, 80, 50, 34, 125] :: str"
  let ?cs = "[123, 34, 99, 49, 34, 58, 32, 34, 80, 52, 34, 44, 32, 34, 99,
         50, 34, 58, 32, 34, 80, 57, 34, 44, 32, 34, 99, 51, 34, 58, 32, 34, 73, 57, 34,
         125] :: str"
  let ?cs' = "[123, 34, 99, 49, 34, 58, 32, 34, 80, 52, 34, 44, 32, 34, 99,
         50, 34, 58, 32, 34, 80, 49, 34, 44, 32, 34, 99, 51, 34, 58, 32, 34, 73, 57, 34,
         125] :: str"
  let ?prm = "[(py_str ''g'', 2)] :: (str \<times> nat) list"
  let ?c = "[(py_str ''c1'', 4), (py_str ''c2'', 9), (py_str ''c3'', 9)] :: (str \<times> nat) list"
  let ?c' = "[(py_str ''c1'', 4), (py_str ''c2'', 1), (py_str ''c3'', 9)] :: (str \<times> nat) list"
  have h1: "1 < (2::nat)" by simp
  have g2: "retrieve_params demo_garbled ?p = Inr ?prm" by code_simp
  have g3: "deserialize_group_element demo_garbled (py_str ''P5'') group_obj = Inr 5"
    by code_simp
  have g4: "deserialize_group_element demo_garbled (py_str ''P3'') group_obj = Inr 3"
    by code_simp
  have g5: "retrieve_cipher demo_garbled ?cs' = Inr ?c'" by code_simp
  have g6: "(if False then
                bind_res (pre_rekeygen demo_garbled None None (Some 3) (Some 5) None) (\<lambda>rk.
                pre_re_encrypt demo_garbled ?prm rk ?c')
              else Inr ?c') = Inr ?c'" by simp
  have g7: "pre_decrypt demo_garbled ?prm 3 ?c' = Inr [0xFF]" by code_simp
  have "utf8_decode [0xFF] = Inl UnicodeDecodeError" by code_simp
  then have g8: "\<forall>t. utf8_encode t \<noteq> Inr [0xFF]"
    using utf8_encode_decode by fastforce
  have h2: "retrieve_params demo ?p = Inr ?prm" by code_simp
  have h3: "deserialize_group_element demo (py_str ''P5'') group_obj = Inr 5" by code_simp
  have h4: "deserialize_group_element demo (py_str ''P3'') group_obj = Inr 3" by code_simp
  have h5: "retrieve_cipher demo ?cs = Inr ?c" by code_simp
  have h6: "(if True then
                bind_res (pre_rekeygen demo None None (Some 3) (Some 5) None) (\<lambda>rk.
                pre_re_encrypt demo ?prm rk ?c)
              else Inr ?c) = Inr ?c'" by code_simp
  have h7: "pre_decrypt demo ?prm 3 ?c' = Inr [0x35]" by code_simp
  have h8: "utf8_encode (py_str ''5'') = Inr [0x35]" by code_simp
  from decrypt_output_utf8_decoded[OF h1 g2 g3 g4 g5 g6 g7, of 0] g8
  have "main demo_garbled 0 2 (no_args\<lparr>decrypt := True, params := Some ?p,
       pk := Some (py_str ''P5''), sk := Some (py_str ''P3''),
       ciphertext := Some ?cs', owned := False\<rparr>) = Inl UnicodeDecodeError" by blast
  moreover from decrypt_output_utf8_decoded[OF h1 h2 h3 h4 h5 h6 h7, of 0] h8
  have "main demo 0 2 (no_args\<lparr>decrypt := True, params := Some ?p,
       pk := Some (py_str ''P5''), sk := Some (py_str ''P3''),
       ciphertext := Some ?cs, owned := True\<rparr>) = Inr (py_str ''5'')" by blast
  ultimately show ?thesis by simp
qed

end
